theory Spec2Isabelle
  imports Main "HOL-Library.AList"
begin

section \<open>Strings and regular expressions of the host language\<close>

text \<open>
  The plugin is TypeScript. Its texts are modelled as \<open>string\<close> (lists of 8-bit
  characters), so the two line terminators of the host language that lie outside that
  range (U+2028 and U+2029) do not occur; line feed and carriage return do.
\<close>

definition line_terminator :: "char \<Rightarrow> bool" where
  "line_terminator c \<longleftrightarrow> c = CHR 0x0A \<or> c = CHR 0x0D"

text \<open>
  The two regular expressions of \<open>main.ts\<close> use single characters, character classes,
  the dot, greedy \<open>?\<close>, \<open>*\<close> and \<open>+\<close>, the lazy \<open>+?\<close>, numbered groups and the
  anchors. Quantifiers \<open>*\<close> and \<open>+\<close> are only ever applied to one character class.
\<close>

datatype cclass = Exactly char | AnyOf string | NoneOf string | Dot

fun accepts :: "cclass \<Rightarrow> char \<Rightarrow> bool" where
  "accepts (Exactly a) c = (c = a)"
| "accepts (AnyOf cs) c = (c \<in> set cs)"
| "accepts (NoneOf cs) c = (c \<notin> set cs)"
| "accepts Dot c = (\<not> line_terminator c)"

datatype regex =
    Bol
  | Eol
  | One cclass
  | Seq regex regex
  | OptG regex
  | StarG cclass
  | PlusG cclass
  | PlusL cclass
  | Group nat regex

text \<open>
  A matcher state is the text before the current position (reversed, so that its head is
  the previous character), the text from the position on, and the captures so far. A
  matcher returns every state in which the expression can end, in the order in which a
  backtracking engine tries them: the first one is the engine's answer.
\<close>

type_synonym captures = "(nat \<times> string) list"
type_synonym mstate = "string \<times> string \<times> captures"

fun star_greedy :: "cclass \<Rightarrow> string \<Rightarrow> string \<Rightarrow> (string \<times> string) list" where
  "star_greedy cl b [] = [(b, [])]"
| "star_greedy cl b (c # cs) =
     (if accepts cl c then star_greedy cl (c # b) cs else []) @ [(b, c # cs)]"

fun plus_greedy :: "cclass \<Rightarrow> string \<Rightarrow> string \<Rightarrow> (string \<times> string) list" where
  "plus_greedy cl b [] = []"
| "plus_greedy cl b (c # cs) = (if accepts cl c then star_greedy cl (c # b) cs else [])"

fun plus_lazy :: "cclass \<Rightarrow> string \<Rightarrow> string \<Rightarrow> (string \<times> string) list" where
  "plus_lazy cl b [] = []"
| "plus_lazy cl b (c # cs) =
     (if accepts cl c then (c # b, cs) # plus_lazy cl (c # b) cs else [])"

definition at_line_start :: "bool \<Rightarrow> string \<Rightarrow> bool" where
  "at_line_start multiline b =
     (case b of [] \<Rightarrow> True | p # _ \<Rightarrow> multiline \<and> line_terminator p)"

definition at_line_end :: "bool \<Rightarrow> string \<Rightarrow> bool" where
  "at_line_end multiline r =
     (case r of [] \<Rightarrow> True | n # _ \<Rightarrow> multiline \<and> line_terminator n)"

definition consumed :: "string \<Rightarrow> string \<Rightarrow> string" where
  "consumed b b' = rev (take (length b' - length b) b')"

fun matcher :: "bool \<Rightarrow> regex \<Rightarrow> mstate \<Rightarrow> mstate list" where
  "matcher ml Bol (b, r, caps) = (if at_line_start ml b then [(b, r, caps)] else [])"
| "matcher ml Eol (b, r, caps) = (if at_line_end ml r then [(b, r, caps)] else [])"
| "matcher ml (One cl) (b, r, caps) =
     (case r of [] \<Rightarrow> [] | c # cs \<Rightarrow> if accepts cl c then [(c # b, cs, caps)] else [])"
| "matcher ml (Seq x y) s = concat (map (matcher ml y) (matcher ml x s))"
| "matcher ml (OptG x) (b, r, caps) =
     filter (\<lambda>(b', r', caps'). length b' \<noteq> length b) (matcher ml x (b, r, caps))
       @ [(b, r, caps)]"
| "matcher ml (StarG cl) (b, r, caps) = map (\<lambda>(b', r'). (b', r', caps)) (star_greedy cl b r)"
| "matcher ml (PlusG cl) (b, r, caps) = map (\<lambda>(b', r'). (b', r', caps)) (plus_greedy cl b r)"
| "matcher ml (PlusL cl) (b, r, caps) = map (\<lambda>(b', r'). (b', r', caps)) (plus_lazy cl b r)"
| "matcher ml (Group n x) (b, r, caps) =
     map (\<lambda>(b', r', caps'). (b', r', AList.update n (consumed b b') caps'))
       (matcher ml x (b, r, caps))"

text \<open>
  \<open>exec\<close>: the leftmost match at or after the current position; the result is the text
  before the start of the match and the state at its end.
\<close>

fun exec_from :: "bool \<Rightarrow> regex \<Rightarrow> string \<Rightarrow> string \<Rightarrow> (string \<times> mstate) option" where
  "exec_from ml re b [] =
     (case matcher ml re (b, [], []) of s # _ \<Rightarrow> Some (b, s) | [] \<Rightarrow> None)"
| "exec_from ml re b (c # cs) =
     (case matcher ml re (b, c # cs, []) of s # _ \<Rightarrow> Some (b, s)
      | [] \<Rightarrow> exec_from ml re (c # b) cs)"

text \<open>A match: element 0 of the match array (the matched text) and the numbered groups.\<close>

type_synonym js_match = "string \<times> captures"

definition group :: "js_match \<Rightarrow> nat \<Rightarrow> string option" where
  "group m n = (if n = 0 then Some (fst m) else map_of (snd m) n)"

lemma star_greedy_len:
  "(b', r') \<in> set (star_greedy cl b r) \<Longrightarrow>
     length b' + length r' = length b + length r \<and> length b \<le> length b'"
  by (induction cl b r rule: star_greedy.induct) (auto split: if_splits)

lemma plus_greedy_len:
  "(b', r') \<in> set (plus_greedy cl b r) \<Longrightarrow>
     length b' + length r' = length b + length r \<and> length b \<le> length b'"
  by (cases r) (auto split: if_splits dest: star_greedy_len)

lemma plus_lazy_len:
  "(b', r') \<in> set (plus_lazy cl b r) \<Longrightarrow>
     length b' + length r' = length b + length r \<and> length b \<le> length b'"
  by (induction cl b r rule: plus_lazy.induct) (fastforce split: if_splits)+

lemma matcher_len:
  "(b', r', caps') \<in> set (matcher ml re (b, r, caps)) \<Longrightarrow>
     length b' + length r' = length b + length r \<and> length b \<le> length b'"
proof (induction re arbitrary: b r caps b' r' caps')
  case (Seq x y)
  from Seq.prems obtain b1 r1 c1 where
    mid: "(b1, r1, c1) \<in> set (matcher ml x (b, r, caps))"
    and fin: "(b', r', caps') \<in> set (matcher ml y (b1, r1, c1))"
    by auto
  from Seq.IH(1)[OF mid] Seq.IH(2)[OF fin] show ?case by simp
next
  case (OptG x)
  then show ?case by (auto split: if_splits)
next
  case (Group n x)
  then show ?case by auto
qed (auto split: if_splits list.splits
       dest: star_greedy_len plus_greedy_len plus_lazy_len)

lemma matcher_first_len:
  assumes "matcher ml re (b, r, caps) = (b1, r1, caps1) # rest"
  shows "length b1 + length r1 = length b + length r \<and> length b \<le> length b1"
proof -
  from assms have "(b1, r1, caps1) \<in> set (matcher ml re (b, r, caps))" by simp
  then show ?thesis by (rule matcher_len)
qed

lemma exec_from_len:
  "exec_from ml re b r = Some (b0, b1, r1, caps) \<Longrightarrow>
     length b1 + length r1 = length b + length r \<and> length b \<le> length b0 \<and> length b0 \<le> length b1"
proof (induction ml re b r rule: exec_from.induct)
  case (1 ml re b)
  then show ?case
    by (auto split: list.splits dest: matcher_first_len)
next
  case (2 ml re b c cs)
  show ?case
  proof (cases "matcher ml re (b, c # cs, [])")
    case Nil
    with 2 show ?thesis by auto
  next
    case (Cons s ss)
    with 2 show ?thesis by (auto dest: matcher_first_len)
  qed
qed

text \<open>
  \<open>matchAll\<close> of a global expression: repeated \<open>exec\<close>, each from the end of the previous
  match, one position further after an empty match.
\<close>

function matchAll_from :: "bool \<Rightarrow> regex \<Rightarrow> string \<Rightarrow> string \<Rightarrow> js_match list" where
  "matchAll_from ml re b r =
     (case exec_from ml re b r of
        None \<Rightarrow> []
      | Some (b0, b1, r1, caps) \<Rightarrow>
          (consumed b0 b1, caps) #
            (if length b1 = length b0
             then (case r1 of [] \<Rightarrow> [] | c # cs \<Rightarrow> matchAll_from ml re (c # b1) cs)
             else matchAll_from ml re b1 r1))"
  by pat_completeness auto
termination
proof (relation "measure (\<lambda>(ml, re, b, r). length r)")
  show "wf (measure (\<lambda>(ml, re, b, r). length r))" by simp
next
  fix ml re b r x2 b0 y b1 ya r1 caps c cs
  assume "exec_from ml re b r = Some x2" "(b0, y) = x2" "(b1, ya) = y" "(r1, caps) = ya"
    "length b1 = length b0" "r1 = c # cs"
  then have "exec_from ml re b r = Some (b0, b1, c # cs, caps)" by simp
  from exec_from_len [OF this]
  show "((ml, re, c # b1, cs), ml, re, b, r) \<in> measure (\<lambda>(ml, re, b, r). length r)"
    by simp
next
  fix ml re b r x2 b0 y b1 ya r1 caps
  assume "exec_from ml re b r = Some x2" "(b0, y) = x2" "(b1, ya) = y" "(r1, caps) = ya"
    "length b1 \<noteq> length b0"
  then have e: "exec_from ml re b r = Some (b0, b1, r1, caps)" and ne: "length b1 \<noteq> length b0"
    by simp_all
  from exec_from_len [OF e] ne
  show "((ml, re, b1, r1), ml, re, b, r) \<in> measure (\<lambda>(ml, re, b, r). length r)"
    by simp
qed

declare matchAll_from.simps [simp del]

definition matchAll :: "bool \<Rightarrow> regex \<Rightarrow> string \<Rightarrow> js_match list" where
  "matchAll ml re s = matchAll_from ml re [] s"


section \<open>Data model of the plugin\<close>

text \<open>
  A raw record as the worker returns it (\<open>EntryData\<close>): its fields by name. Indexing a
  record with a field name gives the field or \<open>undefined\<close>; used as a property key,
  \<open>undefined\<close> is the text of that word.
\<close>

type_synonym entry_data = "(string \<times> string) list"

definition property_key :: "string option \<Rightarrow> string" where
  "property_key v = (case v of None \<Rightarrow> ''undefined'' | Some k \<Rightarrow> k)"

definition index_field :: "entry_data \<Rightarrow> string option \<Rightarrow> string" where
  "index_field e idKey = property_key (map_of e (property_key idKey))"

text \<open>
  An \<open>Entry\<close> is an instance of one of the two adapter classes, built from a record.
  The classes (\<open>types.ts\<close>) are not among the sources: of an entry the model keeps
  which class it is and the record it was built from.
\<close>

datatype entry = EntryBibLaTeXAdapter entry_data | EntryCSLAdapter entry_data

text \<open>
  \<open>Library\<close> holds the object \<open>entries\<close>, from citekey to entry: a plain object, made
  by \<open>Object.fromEntries\<close>. Its own properties are an association list with distinct keys
  (its order is the order of insertion, and no property below depends on it).
\<close>

record library =
  entries :: "(string \<times> entry) list"

text \<open>
  Indexing a plain object with a name gives the value of its own property of that name;
  without one, the property of that name that every plain object inherits from its
  prototype, if there is one (a function, or the prototype itself for \<open>__proto__\<close>);
  and \<open>undefined\<close> otherwise.
\<close>

datatype 'v property_value = Absent | Stored 'v | Inherited string

definition inherited_properties :: "string list" where
  "inherited_properties =
     [''constructor'', ''hasOwnProperty'', ''isPrototypeOf'', ''propertyIsEnumerable'',
      ''toLocaleString'', ''toString'', ''valueOf'', ''__proto__'',
      ''__defineGetter__'', ''__defineSetter__'', ''__lookupGetter__'', ''__lookupSetter__'']"

definition get_property :: "(string \<times> 'v) list \<Rightarrow> string \<Rightarrow> 'v property_value" where
  "get_property obj name =
     (case map_of obj name of
        Some v \<Rightarrow> Stored v
      | None \<Rightarrow> if name \<in> set inherited_properties then Inherited name else Absent)"


text \<open>
  Modelled from the spec: the getter \<open>size\<close> of class \<open>Library\<close> (\<open>types.ts\<close>, not
  among the sources): the number of entries of the store.
\<close>

definition library_size :: "library \<Rightarrow> nat" where
  "library_size lib = length (entries lib)"

text \<open>\<open>Object.fromEntries\<close>: a later pair with the same key replaces the value.\<close>

definition fromEntries :: "(string \<times> 'v) list \<Rightarrow> (string \<times> 'v) list" where
  "fromEntries kvs = foldl (\<lambda>obj (k, v). AList.update k v obj) [] kvs"

text \<open>
  Modelled from the spec: the state of \<open>WorkerManager\<close> (\<open>util.ts\<close>, not among the
  sources) with \<open>blockingChannel\<close>: idle, or busy with the one request in flight.
\<close>

datatype channel = Idle | Busy

record settings =
  citationExportPath :: string
  citationExportFormat :: string
  literatureNoteTitleTemplate_src :: string
  literatureNoteContentTemplate_src :: string
  markdownCitationTemplate_src :: string
  alternativeMarkdownCitationTemplate_src :: string

text \<open>
  The fields of \<open>CitationPlugin\<close> that the operations below read or write:
  \<open>loadErrorNotifier\<close> is whether the notice is shown.
\<close>

record plugin =
  settings :: settings
  library :: "library option"
  citationService_library :: "library option"
  loadWorker :: channel
  loadErrorNotifier :: bool

section \<open>Citation extraction\<close>

text \<open>The expression of \<open>getCitations\<close>, with flags \<open>g\<close> and \<open>m\<close>:
  \<^verbatim>\<open>/^.*\[\[?@([^\]]+?)(?:[#^]+[^\]]+)?\]\]?.*$/gm\<close>\<close>

definition citation_re :: regex where
  "citation_re =
     Seq Bol (Seq (StarG Dot)
    (Seq (One (Exactly CHR ''['')) (Seq (OptG (One (Exactly CHR ''['')))
    (Seq (One (Exactly CHR ''@''))
    (Seq (Group 1 (PlusL (NoneOf '']'')))
    (Seq (OptG (Seq (PlusG (AnyOf ''#^'')) (PlusG (NoneOf '']''))))
    (Seq (One (Exactly CHR '']'')) (Seq (OptG (One (Exactly CHR '']'')))
    (Seq (StarG Dot) Eol)))))))))"

definition citation_matches :: "string \<Rightarrow> js_match list" where
  "citation_matches content = matchAll True citation_re content"

definition occurrence :: "library \<Rightarrow> js_match \<Rightarrow> entry property_value \<times> string" where
  "occurrence lib m = (get_property (entries lib) (property_key (group m 1)), fst m)"

definition getCitations ::
    "plugin \<Rightarrow> string \<Rightarrow> (entry property_value \<times> string) list option" where
  "getCitations p content =
     (case library p of
        None \<Rightarrow> None
      | Some lib \<Rightarrow> Some (map (occurrence lib) (citation_matches content)))"

section \<open>Reloading the library\<close>

text \<open>
  \<open>loadLibrary\<close> is asynchronous: a call runs in steps, one per promise handler, and
  between two of its steps other code of the plugin runs, the steps of other calls of
  \<open>loadLibrary\<close> among it (the first load, the file watcher and the refresh command all
  call it). What the file system and the worker answer, and when, is an input of the
  model.
\<close>

datatype read_outcome = ReadOk string | ReadFailed

datatype worker_outcome = Parsed "entry_data list" | ParseFailed

datatype rejection = WorkerManagerBlocked | OtherError

text \<open>The value the promise of \<open>loadLibrary\<close> resolves to.\<close>

datatype load_result = Loaded library | Null | Undefined

text \<open>
  Modelled from the spec: \<open>WorkerManager.post\<close> (\<open>util.ts\<close>, not among the sources).
  On an idle channel the request is dispatched and the channel becomes busy; on a busy
  channel the request is not queued but rejected at once with the blocked signal, and the
  channel, with the request in flight, is left as it is. When the worker answers, with
  records or with an error, the channel is idle again.
\<close>

definition post :: "channel \<Rightarrow> channel \<times> rejection option" where
  "post ch = (case ch of Idle \<Rightarrow> (Busy, None) | Busy \<Rightarrow> (Busy, Some WorkerManagerBlocked))"

definition settled :: "channel \<Rightarrow> channel" where
  "settled ch = Idle"

text \<open>The handler of \<open>catch\<close>: silent for the blocked signal, the notice otherwise.\<close>

definition on_rejected :: "rejection \<Rightarrow> plugin \<Rightarrow> plugin \<times> load_result" where
  "on_rejected e p =
     (case e of
        WorkerManagerBlocked \<Rightarrow> (p, Undefined)
      | OtherError \<Rightarrow> (p\<lparr>loadErrorNotifier := True\<rparr>, Null))"

text \<open>
  The first handler of \<open>then\<close>: the file has been read; the notice is hidden and the
  decoded text is posted to the worker.
\<close>

definition on_file_read :: "string \<Rightarrow> plugin \<Rightarrow> plugin \<times> rejection option" where
  "on_file_read val p =
     (let p1 = p\<lparr>loadErrorNotifier := False\<rparr>;
          (ch, rej) = post (loadWorker p1)
      in (p1\<lparr>loadWorker := ch\<rparr>, rej))"

text \<open>
  The \<open>switch\<close> on the export format has no default: for any other format both the
  adapter and the key name stay undefined.
\<close>

definition select_adapter :: "string \<Rightarrow> (entry_data \<Rightarrow> entry) option \<times> string option" where
  "select_adapter fmt =
     (if fmt = ''biblatex'' then (Some EntryBibLaTeXAdapter, Some ''key'')
      else if fmt = ''csl-json'' then (Some EntryCSLAdapter, Some ''id'')
      else (None, None))"

text \<open>
  \<open>entries.map((e) => [e[idKey], new adapter(e)])\<close>: with an undefined adapter the
  first record raises a type error (\<open>None\<close>); without records nothing is called.
\<close>

definition entry_pairs ::
    "(entry_data \<Rightarrow> entry) option \<times> string option \<Rightarrow> entry_data list \<Rightarrow> (string \<times> entry) list option" where
  "entry_pairs sel es =
     (case fst sel of
        None \<Rightarrow> (if es = [] then Some [] else None)
      | Some adapter \<Rightarrow> Some (map (\<lambda>e. (index_field e (snd sel), adapter e)) es))"

text \<open>
  The second handler of \<open>then\<close>: the records have arrived; the store is built and
  assigned to the plugin and to the citation service. The status bar and the console are
  not modelled.
\<close>

definition on_entries :: "entry_data list \<Rightarrow> plugin \<Rightarrow> rejection + plugin \<times> library" where
  "on_entries es p =
     (case entry_pairs (select_adapter (citationExportFormat (settings p))) es of
        None \<Rightarrow> Inl OtherError
      | Some kvs \<Rightarrow>
          (let lib = \<lparr>entries = fromEntries kvs\<rparr>
           in Inr (p\<lparr>library := Some lib, citationService_library := Some lib\<rparr>, lib)))"

text \<open>
  How far a call of \<open>loadLibrary\<close> has come: not made yet; reading the file; posted to
  the worker; answered by the worker, with the handler of its chain still to run;
  rejected (by the file system or by the channel), with the handler of \<open>catch\<close> still to
  run; resolved to its result.
\<close>

datatype phase =
    NotStarted
  | Reading
  | Posted
  | Answered worker_outcome
  | Rejected rejection
  | Done load_result

definition is_done :: "phase \<Rightarrow> bool" where
  "is_done ph = (case ph of Done r \<Rightarrow> True | _ \<Rightarrow> False)"

text \<open>The plugin together with the calls of \<open>loadLibrary\<close>, which are numbered.\<close>

record sys =
  plug :: plugin
  phase_of :: "nat \<Rightarrow> phase"

text \<open>
  An event is one uninterrupted run of code of the plugin: the synchronous part of a
  call; the settling of its file read, which on success runs the first handler of \<open>then\<close>;
  the answer of the worker to the posted request, after which the channel is idle; the
  handler that ends the chain of the call (the second handler of \<open>then\<close>, or the handler
  of \<open>catch\<close>). An event that cannot happen in a state leaves the state as it is.
\<close>

datatype event =
    Start nat
  | ReadSettled nat read_outcome
  | WorkerAnswers nat worker_outcome
  | Handler nat

definition set_phase :: "nat \<Rightarrow> phase \<Rightarrow> plugin \<Rightarrow> sys \<Rightarrow> sys" where
  "set_phase c ph p s = \<lparr>plug = p, phase_of = (phase_of s)(c := ph)\<rparr>"

text \<open>
  The synchronous part of \<open>loadLibrary\<close>: without an export path only a warning; with
  one, the current library is unloaded and the file read is started.
\<close>

definition loadLibrary_start :: "nat \<Rightarrow> sys \<Rightarrow> sys" where
  "loadLibrary_start c s =
     (if citationExportPath (settings (plug s)) = [] then set_phase c (Done Undefined) (plug s) s
      else set_phase c Reading ((plug s)\<lparr>library := None\<rparr>) s)"

definition read_settled :: "nat \<Rightarrow> read_outcome \<Rightarrow> sys \<Rightarrow> sys" where
  "read_settled c rd s =
     (case rd of
        ReadFailed \<Rightarrow> set_phase c (Rejected OtherError) (plug s) s
      | ReadOk val \<Rightarrow>
          (case on_file_read val (plug s) of
             (p, Some e) \<Rightarrow> set_phase c (Rejected e) p s
           | (p, None) \<Rightarrow> set_phase c Posted p s))"

definition worker_answers :: "nat \<Rightarrow> worker_outcome \<Rightarrow> sys \<Rightarrow> sys" where
  "worker_answers c w s =
     set_phase c (Answered w) ((plug s)\<lparr>loadWorker := settled (loadWorker (plug s))\<rparr>) s"

definition resolve :: "nat \<Rightarrow> plugin \<times> load_result \<Rightarrow> sys \<Rightarrow> sys" where
  "resolve c pr s = set_phase c (Done (snd pr)) (fst pr) s"

definition handler :: "nat \<Rightarrow> sys \<Rightarrow> sys" where
  "handler c s =
     (case phase_of s c of
        Rejected e \<Rightarrow> resolve c (on_rejected e (plug s)) s
      | Answered ParseFailed \<Rightarrow> resolve c (on_rejected OtherError (plug s)) s
      | Answered (Parsed es) \<Rightarrow>
          (case on_entries es (plug s) of
             Inl e \<Rightarrow> resolve c (on_rejected e (plug s)) s
           | Inr (p, lib) \<Rightarrow> resolve c (p, Loaded lib) s)
      | _ \<Rightarrow> s)"

fun step :: "event \<Rightarrow> sys \<Rightarrow> sys" where
  "step (Start c) s = (if phase_of s c = NotStarted then loadLibrary_start c s else s)"
| "step (ReadSettled c rd) s = (if phase_of s c = Reading then read_settled c rd s else s)"
| "step (WorkerAnswers c w) s = (if phase_of s c = Posted then worker_answers c w s else s)"
| "step (Handler c) s = handler c s"

text \<open>
  A schedule is a list of events. \<open>run\<close> is the state after it, \<open>states\<close> the states
  after each of its events, in order: what a reader can observe while it happens.
\<close>

fun run :: "event list \<Rightarrow> sys \<Rightarrow> sys" where
  "run [] s = s"
| "run (e # es) s = run es (step e s)"

fun states :: "event list \<Rightarrow> sys \<Rightarrow> sys list" where
  "states [] s = []"
| "states (e # es) s = step e s # states es (step e s)"

section \<open>Post-processing of rendered Markdown\<close>











section \<open>Templates\<close>

text \<open>The options with which the plugin compiles every template.\<close>

record template_options =
  noEscape :: bool

definition templateSettings :: template_options where
  "templateSettings = \<lparr>noEscape = True\<rparr>"

text \<open>
  Modelled from the spec: the template engine (\<open>compile\<close> of the package handlebars, an
  external collaborator that is not among the sources), for the templates of the spec:
  text with expressions \<open>{{name}}\<close>, each replaced by the value of the variable (by
  nothing if there is none). Unless the option \<open>noEscape\<close> is set, the engine
  entity-escapes the value. A template with an unclosed expression or with an
  expression that is not a plain name is not compiled (\<open>None\<close>).
\<close>

datatype segment = Content string | Mustache string

definition name_char :: "char \<Rightarrow> bool" where
  "name_char c \<longleftrightarrow>
     c \<in> set ''abcdefghijklmnopqrstuvwxyzABCDEFGHIJKLMNOPQRSTUVWXYZ0123456789_''"

definition plain_name :: "string \<Rightarrow> bool" where
  "plain_name n \<longleftrightarrow> n \<noteq> [] \<and> list_all name_char n"

fun scan_content :: "string \<Rightarrow> string \<Rightarrow> segment list option"
  and scan_mustache :: "string \<Rightarrow> string \<Rightarrow> segment list option" where
  "scan_content acc [] = Some [Content (rev acc)]"
| "scan_content acc [c] = Some [Content (rev (c # acc))]"
| "scan_content acc (c # d # cs) =
     (if c = CHR ''{'' \<and> d = CHR ''{''
      then map_option (\<lambda>segs. Content (rev acc) # segs) (scan_mustache [] cs)
      else scan_content (c # acc) (d # cs))"
| "scan_mustache acc [] = None"
| "scan_mustache acc [c] = None"
| "scan_mustache acc (c # d # cs) =
     (if c = CHR ''}'' \<and> d = CHR ''}''
      then (if plain_name (rev acc)
            then map_option (\<lambda>segs. Mustache (rev acc) # segs) (scan_content [] cs)
            else None)
      else scan_mustache (c # acc) (d # cs))"

record template =
  segments :: "segment list"
  options :: template_options

definition compileTemplate :: "string \<Rightarrow> template_options \<Rightarrow> template option" where
  "compileTemplate src opts =
     map_option (\<lambda>segs. \<lparr>segments = segs, options = opts\<rparr>) (scan_content [] src)"

definition escape_char :: "char \<Rightarrow> string" where
  "escape_char c =
     (if c = CHR ''&'' then ''&amp;''
      else if c = CHR ''<'' then ''&lt;''
      else if c = CHR ''>'' then ''&gt;''
      else if c = CHR 0x22 then ''&quot;''
      else if c = CHR 0x27 then ''&#x27;''
      else if c = CHR 0x60 then ''&#x60;''
      else if c = CHR ''='' then ''&#x3D;''
      else [c])"

definition escapeExpression :: "string \<Rightarrow> string" where
  "escapeExpression v = concat (map escape_char v)"

type_synonym variables = "(string \<times> string) list"

definition render_segment :: "template_options \<Rightarrow> variables \<Rightarrow> segment \<Rightarrow> string" where
  "render_segment opts vars seg =
     (case seg of
        Content t \<Rightarrow> t
      | Mustache n \<Rightarrow>
          (case map_of vars n of
             None \<Rightarrow> []
           | Some v \<Rightarrow> if noEscape opts then v else escapeExpression v))"

definition render :: "template \<Rightarrow> variables \<Rightarrow> string" where
  "render t vars = concat (map (render_segment (options t) vars) (segments t))"

text \<open>The four getters of the plugin: each compiles its template anew, with \<open>templateSettings\<close>.\<close>

definition literatureNoteTitleTemplate :: "plugin \<Rightarrow> template option" where
  "literatureNoteTitleTemplate p =
     compileTemplate (literatureNoteTitleTemplate_src (settings p)) templateSettings"

definition literatureNoteContentTemplate :: "plugin \<Rightarrow> template option" where
  "literatureNoteContentTemplate p =
     compileTemplate (literatureNoteContentTemplate_src (settings p)) templateSettings"

definition markdownCitationTemplate :: "plugin \<Rightarrow> template option" where
  "markdownCitationTemplate p =
     compileTemplate (markdownCitationTemplate_src (settings p)) templateSettings"

definition alternativeMarkdownCitationTemplate :: "plugin \<Rightarrow> template option" where
  "alternativeMarkdownCitationTemplate p =
     compileTemplate (alternativeMarkdownCitationTemplate_src (settings p)) templateSettings"

text \<open>The four templates, by kind, with their sources in the settings.\<close>

datatype template_kind = Title | NoteContent | PrimaryCitation | AlternativeCitation

definition template_source :: "template_kind \<Rightarrow> settings \<Rightarrow> string" where
  "template_source kind s =
     (case kind of
        Title \<Rightarrow> literatureNoteTitleTemplate_src s
      | NoteContent \<Rightarrow> literatureNoteContentTemplate_src s
      | PrimaryCitation \<Rightarrow> markdownCitationTemplate_src s
      | AlternativeCitation \<Rightarrow> alternativeMarkdownCitationTemplate_src s)"

definition compiled_template :: "template_kind \<Rightarrow> plugin \<Rightarrow> template option" where
  "compiled_template kind p =
     (case kind of
        Title \<Rightarrow> literatureNoteTitleTemplate p
      | NoteContent \<Rightarrow> literatureNoteContentTemplate p
      | PrimaryCitation \<Rightarrow> markdownCitationTemplate p
      | AlternativeCitation \<Rightarrow> alternativeMarkdownCitationTemplate p)"

text \<open>A segment with the value of its variable as it is.\<close>

definition verbatim :: "variables \<Rightarrow> segment \<Rightarrow> string" where
  "verbatim vars seg =
     (case seg of
        Content t \<Rightarrow> t
      | Mustache n \<Rightarrow> (case map_of vars n of None \<Rightarrow> [] | Some v \<Rightarrow> v))"

section \<open>Concrete instances\<close>

text \<open>A plugin with one entry loaded and an idle worker.\<close>

definition example_settings :: settings where
  "example_settings =
     \<lparr>citationExportPath = ''refs.bib'', citationExportFormat = ''biblatex'',
      literatureNoteTitleTemplate_src = ''{{title}}'',
      literatureNoteContentTemplate_src = ''# {{title}}'',
      markdownCitationTemplate_src = ''[{{citekey}}]'',
      alternativeMarkdownCitationTemplate_src = ''{{citekey}}''\<rparr>"

definition example_library :: library where
  "example_library =
     \<lparr>entries = [(''smith2020'', EntryBibLaTeXAdapter [(''key'', ''smith2020'')])]\<rparr>"

definition example_plugin :: plugin where
  "example_plugin =
     \<lparr>settings = example_settings, library = Some example_library,
      citationService_library = Some example_library, loadWorker = Idle,
      loadErrorNotifier = False\<rparr>"

text \<open>The plugin with no call of \<open>loadLibrary\<close> made yet.\<close>

definition idle_sys :: sys where
  "idle_sys = \<lparr>plug = example_plugin, phase_of = (\<lambda>c. NotStarted)\<rparr>"

text \<open>The plugin while call 0 is in flight: posted to the worker, not answered yet.\<close>

definition busy_sys :: sys where
  "busy_sys =
     \<lparr>plug = example_plugin\<lparr>loadWorker := Busy, library := None\<rparr>,
      phase_of = (\<lambda>c. NotStarted)(0 := Posted)\<rparr>"

text \<open>A batch of two records and the store built from it.\<close>

definition example_batch :: "entry_data list" where
  "example_batch =
     [[(''key'', ''jones2021''), (''title'', ''On Reloading'')],
      [(''key'', ''lee2019''), (''title'', ''Foo & Bar'')]]"

definition example_store :: library where
  "example_store =
     \<lparr>entries =
        [(''jones2021'', EntryBibLaTeXAdapter [(''key'', ''jones2021''), (''title'', ''On Reloading'')]),
         (''lee2019'', EntryBibLaTeXAdapter [(''key'', ''lee2019''), (''title'', ''Foo & Bar'')])]\<rparr>"







section \<open>Properties of the reload\<close>

lemma step_done_stable: "is_done (phase_of s c) \<Longrightarrow> phase_of (step e s) c = phase_of s c"
  by (cases e)
    (auto simp: is_done_def loadLibrary_start_def read_settled_def worker_answers_def
      handler_def resolve_def set_phase_def
      split: phase.splits read_outcome.splits worker_outcome.splits prod.splits
        option.splits sum.splits)

lemma step_settings: "settings (plug (step e s)) = settings (plug s)"
  by (cases e)
    (auto simp: loadLibrary_start_def read_settled_def worker_answers_def handler_def
      resolve_def set_phase_def on_file_read_def on_rejected_def on_entries_def Let_def
      split: phase.splits read_outcome.splits worker_outcome.splits prod.splits
        option.splits sum.splits rejection.splits)

lemma step_library:
  "library (plug (step e s)) = library (plug s)
   \<or> library (plug (step e s)) = None
   \<or> (\<exists>c lib. \<not> is_done (phase_of s c) \<and> phase_of (step e s) c = Done (Loaded lib)
         \<and> library (plug (step e s)) = Some lib)"
proof (cases e)
  case (Handler c)
  show ?thesis
  proof (cases "phase_of s c")
    case (Answered w)
    then show ?thesis
      using Handler
      by (cases w)
        (auto simp: handler_def resolve_def set_phase_def on_rejected_def on_entries_def
          is_done_def Let_def split: option.splits rejection.splits)
  next
    case (Rejected r)
    then show ?thesis
      using Handler
      by (auto simp: handler_def resolve_def set_phase_def on_rejected_def
          split: rejection.splits)
  qed (use Handler in \<open>simp_all add: handler_def\<close>)
qed (auto simp: loadLibrary_start_def read_settled_def worker_answers_def set_phase_def
       on_file_read_def Let_def split: read_outcome.splits prod.splits option.splits)

lemma step_keeps_invariant:
  assumes fixed: "\<forall>c. is_done (phase_of s0 c) \<longrightarrow> phase_of s c = phase_of s0 c"
    and store: "library (plug s) = None
      \<or> (\<exists>c lib. \<not> is_done (phase_of s0 c) \<and> phase_of s c = Done (Loaded lib)
            \<and> library (plug s) = Some lib)"
  shows "(\<forall>c. is_done (phase_of s0 c) \<longrightarrow> phase_of (step e s) c = phase_of s0 c)
    \<and> (library (plug (step e s)) = None
      \<or> (\<exists>c lib. \<not> is_done (phase_of s0 c) \<and> phase_of (step e s) c = Done (Loaded lib)
            \<and> library (plug (step e s)) = Some lib))"
proof (intro conjI allI impI)
  fix c assume "is_done (phase_of s0 c)"
  with fixed have "is_done (phase_of s c)" and "phase_of s c = phase_of s0 c" by auto
  then show "phase_of (step e s) c = phase_of s0 c" by (simp add: step_done_stable)
next
  from step_library [of e s]
  show "library (plug (step e s)) = None
      \<or> (\<exists>c lib. \<not> is_done (phase_of s0 c) \<and> phase_of (step e s) c = Done (Loaded lib)
            \<and> library (plug (step e s)) = Some lib)"
  proof (elim disjE exE conjE)
    assume same: "library (plug (step e s)) = library (plug s)"
    from store show ?thesis
    proof
      assume "library (plug s) = None"
      with same show ?thesis by simp
    next
      assume "\<exists>c lib. \<not> is_done (phase_of s0 c) \<and> phase_of s c = Done (Loaded lib)
            \<and> library (plug s) = Some lib"
      then obtain c lib where c: "\<not> is_done (phase_of s0 c)" "phase_of s c = Done (Loaded lib)"
        "library (plug s) = Some lib" by blast
      then have "phase_of (step e s) c = Done (Loaded lib)"
        by (simp add: step_done_stable is_done_def)
      with c same show ?thesis by auto
    qed
  next
    assume "library (plug (step e s)) = None"
    then show ?thesis by simp
  next
    fix c lib
    assume new: "\<not> is_done (phase_of s c)" "phase_of (step e s) c = Done (Loaded lib)"
      "library (plug (step e s)) = Some lib"
    from new(1) fixed have "\<not> is_done (phase_of s0 c)" by auto
    with new show ?thesis by blast
  qed
qed

lemma states_keep_invariant:
  assumes "\<forall>c. is_done (phase_of s0 c) \<longrightarrow> phase_of s c = phase_of s0 c"
    and "library (plug s) = None
      \<or> (\<exists>c lib. \<not> is_done (phase_of s0 c) \<and> phase_of s c = Done (Loaded lib)
            \<and> library (plug s) = Some lib)"
    and "s' \<in> set (states evs s)"
  shows "(\<forall>c. is_done (phase_of s0 c) \<longrightarrow> phase_of s' c = phase_of s0 c)
    \<and> (library (plug s') = None
      \<or> (\<exists>c lib. \<not> is_done (phase_of s0 c) \<and> phase_of s' c = Done (Loaded lib)
            \<and> library (plug s') = Some lib))"
  using assms
proof (induction evs arbitrary: s)
  case Nil
  then show ?case by simp
next
  case (Cons e evs)
  note inv = step_keeps_invariant [OF Cons.prems(1) Cons.prems(2), of e]
  from Cons.prems(3) have "s' = step e s \<or> s' \<in> set (states evs (step e s))" by simp
  then show ?case
  proof
    assume "s' = step e s"
    with inv show ?thesis by simp
  next
    assume "s' \<in> set (states evs (step e s))"
    with Cons.IH [of "step e s"] inv show ?thesis by blast
  qed
qed

lemma run_in_states: "evs \<noteq> [] \<Longrightarrow> run evs s \<in> set (states evs s)"
proof (induction evs arbitrary: s)
  case Nil
  then show ?case by simp
next
  case (Cons e evs)
  then show ?case by (cases evs) auto
qed

lemma after_start:
  assumes "citationExportPath (settings (plug s0)) \<noteq> []" and "phase_of s0 c = NotStarted"
  shows "(\<forall>c'. is_done (phase_of s0 c') \<longrightarrow> phase_of (step (Start c) s0) c' = phase_of s0 c')
    \<and> library (plug (step (Start c) s0)) = None"
  using assms by (auto simp: loadLibrary_start_def set_phase_def is_done_def)

lemma library_after_start:
  assumes "citationExportPath (settings (plug s0)) \<noteq> []"
    and "phase_of s0 c = NotStarted"
    and "s \<in> set (states (Start c # evs) s0)"
  shows "library (plug s) = None
         \<or> (\<exists>c' lib. \<not> is_done (phase_of s0 c') \<and> phase_of s c' = Done (Loaded lib)
               \<and> library (plug s) = Some lib)"
proof -
  from after_start [OF assms(1,2)] have
    fixed: "\<forall>c'. is_done (phase_of s0 c') \<longrightarrow> phase_of (step (Start c) s0) c' = phase_of s0 c'"
    and none: "library (plug (step (Start c) s0)) = None" by simp_all
  from assms(3) have "s = step (Start c) s0 \<or> s \<in> set (states evs (step (Start c) s0))"
    by simp
  then show ?thesis
  proof
    assume "s = step (Start c) s0"
    with none show ?thesis by simp
  next
    assume "s \<in> set (states evs (step (Start c) s0))"
    from states_keep_invariant [OF fixed _ this] none show ?thesis by simp
  qed
qed

lemma update_fresh: "k \<notin> fst ` set al \<Longrightarrow> AList.update k v al = al @ [(k, v)]"
  by (induction al) auto

lemma foldl_update_distinct:
  "distinct (map fst (acc @ kvs)) \<Longrightarrow>
     foldl (\<lambda>obj (k, v). AList.update k v obj) acc kvs = acc @ kvs"
proof (induction kvs arbitrary: acc)
  case Nil
  then show ?case by simp
next
  case (Cons kv kvs)
  obtain k v where kv: "kv = (k, v)" by (cases kv)
  from Cons.prems kv have fresh: "k \<notin> fst ` set acc" by auto
  from Cons.prems kv have "distinct (map fst ((acc @ [(k, v)]) @ kvs))" by auto
  from Cons.IH [OF this] fresh kv show ?case by (simp add: update_fresh)
qed

lemma fromEntries_distinct: "distinct (map fst kvs) \<Longrightarrow> fromEntries kvs = kvs"
  using foldl_update_distinct [of "[]" kvs] by (simp add: fromEntries_def)

lemma fromEntries_example: "fromEntries (entries example_store) = entries example_store"
  by (rule fromEntries_distinct) (simp add: example_store_def)

lemma on_entries_example:
  "citationExportFormat (settings p) = ''biblatex'' \<Longrightarrow>
   on_entries example_batch p =
     Inr (p\<lparr>library := Some example_store, citationService_library := Some example_store\<rparr>,
          example_store)"
  using fromEntries_example
  by (simp add: on_entries_def entry_pairs_def select_adapter_def example_batch_def
      index_field_def property_key_def example_store_def Let_def)

lemmas reload_steps =
  loadLibrary_start_def read_settled_def worker_answers_def handler_def resolve_def
  set_phase_def on_file_read_def post_def settled_def on_rejected_def

lemmas reload_instances =
  idle_sys_def busy_sys_def example_plugin_def example_settings_def

text \<open>
  C1 (as stated, refuted). A reload of a plugin that has a store loaded and no other
  reload pending: the state that a reader observes right after the start of
  \<open>loadLibrary\<close> has no store, which is neither the store before the reload nor the
  store after it; \<open>getCitations\<close> called then returns null.
\<close>

theorem loadLibrary_unloads_first_counterexample:
  "library (plug (step (Start 0) idle_sys)) \<noteq> library (plug idle_sys)
   \<and> library (plug (step (Start 0) idle_sys))
       \<noteq> library (plug (run [Start 0, ReadSettled 0 (ReadOk ''data''),
                               WorkerAnswers 0 (Parsed example_batch), Handler 0] idle_sys))
   \<and> getCitations (plug (step (Start 0) idle_sys)) ''See [[@smith2020]] for details.'' = None"
  by (simp add: reload_steps reload_instances on_entries_example getCitations_def)

text \<open>
  C1 (amended). Take any state of the plugin with the export path set, a call of
  \<open>loadLibrary\<close> made in it, and any schedule of events after that, of this call and of
  calls that overlap it. In every state observable from the start of the call on, the
  library is either absent (the call unloads the current store first) or it is the
  store, assigned whole, that a call of \<open>loadLibrary\<close> which has completed successfully
  since then returned: this call or an overlapping one. The store held before the call
  is not kept, and no partly built store is observable.
\<close>

theorem loadLibrary_observable_stores:
  assumes "citationExportPath (settings (plug s0)) \<noteq> []"
    and "phase_of s0 c = NotStarted"
    and "s \<in> set (states (Start c # evs) s0)"
  shows "library (plug s) = None
         \<or> (\<exists>c' lib. \<not> is_done (phase_of s0 c') \<and> phase_of s c' = Done (Loaded lib)
               \<and> library (plug s) = Some lib)"
  using assms by (rule library_after_start)

theorem loadLibrary_observable_stores_witness:
  "citationExportPath (settings (plug busy_sys)) \<noteq> []
   \<and> phase_of busy_sys 1 = NotStarted
   \<and> run [Start 1, WorkerAnswers 0 (Parsed example_batch), Handler 0] busy_sys
       \<in> set (states [Start 1, WorkerAnswers 0 (Parsed example_batch), Handler 0] busy_sys)
   \<and> library (plug (run [Start 1, WorkerAnswers 0 (Parsed example_batch), Handler 0] busy_sys))
       = Some example_store
   \<and> (library (plug (run [Start 1, WorkerAnswers 0 (Parsed example_batch), Handler 0] busy_sys))
        = None
      \<or> (\<exists>c' lib. \<not> is_done (phase_of busy_sys c')
            \<and> phase_of (run [Start 1, WorkerAnswers 0 (Parsed example_batch), Handler 0] busy_sys) c'
                = Done (Loaded lib)
            \<and> library (plug (run [Start 1, WorkerAnswers 0 (Parsed example_batch), Handler 0]
                  busy_sys)) = Some lib))"
proof -
  have path: "citationExportPath (settings (plug busy_sys)) \<noteq> []"
    by (simp add: reload_instances)
  have fresh: "phase_of busy_sys 1 = NotStarted"
    by (simp add: reload_instances)
  have seen: "run [Start 1, WorkerAnswers 0 (Parsed example_batch), Handler 0] busy_sys
       \<in> set (states [Start 1, WorkerAnswers 0 (Parsed example_batch), Handler 0] busy_sys)"
    by (rule run_in_states) simp
  have store: "library (plug (run [Start 1, WorkerAnswers 0 (Parsed example_batch), Handler 0]
      busy_sys)) = Some example_store"
    by (simp add: reload_steps reload_instances on_entries_example)
  from loadLibrary_observable_stores [OF path fresh seen] path fresh seen store
  show ?thesis by blast
qed







text \<open>
  C9. For the export format \<open>biblatex\<close> (key field \<open>key\<close>) or \<open>csl-json\<close> (key field
  \<open>id\<close>) and a batch of records whose key fields are pairwise distinct, the handler of
  the parsed records builds a store with exactly one entry per record: the size of the
  store is the number of records, under the key field of every record the store holds
  the format's adapter applied to that record, and it holds nothing else. The store is
  assigned to the plugin and returned.
\<close>

theorem on_entries_one_entry_per_record:
  assumes "citationExportFormat (settings p) = ''biblatex'' \<and> idKey = ''key''
             \<and> adapter = EntryBibLaTeXAdapter
           \<or> citationExportFormat (settings p) = ''csl-json'' \<and> idKey = ''id''
             \<and> adapter = EntryCSLAdapter"
    and "distinct (map (\<lambda>e. index_field e (Some idKey)) batch)"
  shows "\<exists>lib. on_entries batch p
                 = Inr (p\<lparr>library := Some lib, citationService_library := Some lib\<rparr>, lib)
           \<and> library_size lib = length batch
           \<and> (\<forall>e \<in> set batch. \<forall>k. map_of e idKey = Some k \<longrightarrow>
                 map_of (entries lib) k = Some (adapter e))
           \<and> (\<forall>k v. map_of (entries lib) k = Some v \<longrightarrow>
                 (\<exists>e \<in> set batch. k = index_field e (Some idKey) \<and> v = adapter e))"
proof -
  let ?kvs = "map (\<lambda>e. (index_field e (Some idKey), adapter e)) batch"
  have keys: "map fst ?kvs = map (\<lambda>e. index_field e (Some idKey)) batch"
    by (simp add: comp_def)
  with assms(2) have dist: "distinct (map fst ?kvs)" by (simp only:)
  then have built: "fromEntries ?kvs = ?kvs" by (rule fromEntries_distinct)
  from assms(1) have pairs:
    "entry_pairs (select_adapter (citationExportFormat (settings p))) batch = Some ?kvs"
    by (auto simp: entry_pairs_def select_adapter_def)
  have run: "on_entries batch p
      = Inr (p\<lparr>library := Some \<lparr>entries = ?kvs\<rparr>,
                citationService_library := Some \<lparr>entries = ?kvs\<rparr>\<rparr>, \<lparr>entries = ?kvs\<rparr>)"
    by (simp add: on_entries_def pairs built Let_def)
  have look: "map_of ?kvs k = Some (adapter e)"
    if "e \<in> set batch" and "map_of e idKey = Some k" for e k
  proof -
    from that have "(k, adapter e) \<in> set ?kvs"
      by (force simp: index_field_def property_key_def)
    with dist show ?thesis by (rule map_of_is_SomeI)
  qed
  have only: "\<exists>e \<in> set batch. k = index_field e (Some idKey) \<and> v = adapter e"
    if "map_of ?kvs k = Some v" for k v
  proof -
    from that have "(k, v) \<in> set ?kvs" by (rule map_of_SomeD)
    then show ?thesis by auto
  qed
  show ?thesis
    by (rule exI [of _ "\<lparr>entries = ?kvs\<rparr>"]) (use look only in \<open>simp add: run library_size_def\<close>)
qed

theorem on_entries_one_entry_per_record_witness:
  "citationExportFormat (settings example_plugin) = ''biblatex''
   \<and> distinct (map (\<lambda>e. index_field e (Some ''key'')) example_batch)
   \<and> (\<exists>lib. on_entries example_batch example_plugin
                = Inr (example_plugin\<lparr>library := Some lib, citationService_library := Some lib\<rparr>, lib)
          \<and> library_size lib = 2
          \<and> map_of (entries lib) ''lee2019''
              = Some (EntryBibLaTeXAdapter [(''key'', ''lee2019''), (''title'', ''Foo & Bar'')]))"
  using on_entries_one_entry_per_record
    [of example_plugin "''key''" EntryBibLaTeXAdapter example_batch]
  by (auto simp: example_plugin_def example_settings_def example_batch_def index_field_def
      property_key_def)

section \<open>Properties of citation extraction\<close>

lemma matches_smith:
  "citation_matches ''See [[@smith2020]] for details.'' =
     [(''See [[@smith2020]] for details.'', [(1, ''smith2020'')])]"
  by code_simp

lemma matches_two_on_a_line:
  "citation_matches ''[[@a2020]] and [[@b2021]] agree.'' =
     [(''[[@a2020]] and [[@b2021]] agree.'', [(1, ''b2021'')])]"
  by code_simp

lemma matches_constructor:
  "citation_matches ''[[@constructor]]'' = [(''[[@constructor]]'', [(1, ''constructor'')])]"
  by code_simp

lemma matches_plain: "citation_matches ''plain text'' = []"
  by code_simp

lemma get_property_smith:
  "get_property obj ''smith2020'' = (case map_of obj ''smith2020'' of None \<Rightarrow> Absent | Some e \<Rightarrow> Stored e)"
  by (simp add: get_property_def inherited_properties_def split: option.splits)

lemma get_property_b:
  "get_property obj ''b2021'' = (case map_of obj ''b2021'' of None \<Rightarrow> Absent | Some e \<Rightarrow> Stored e)"
  by (simp add: get_property_def inherited_properties_def split: option.splits)

text \<open>
  C5. For the input \<open>See [[@smith2020]] for details.\<close> and any loaded store, extraction
  returns exactly one occurrence: its entry is what the store holds under the citekey
  \<open>smith2020\<close> (the entry stored there, or none), and its source line is the whole
  input line.
\<close>

theorem getCitations_single_reference:
  "getCitations (p\<lparr>library := Some lib\<rparr>) ''See [[@smith2020]] for details.'' =
     Some [(case map_of (entries lib) ''smith2020'' of None \<Rightarrow> Absent | Some e \<Rightarrow> Stored e,
            ''See [[@smith2020]] for details.'')]"
  by (simp add: getCitations_def matches_smith occurrence_def group_def property_key_def
      get_property_smith)

text \<open>
  C4 (what the code does at the claim's input). For the line
  \<open>[[@a2020]] and [[@b2021]] agree.\<close> and any loaded store, extraction returns one
  occurrence, not two: the expression matches a whole line at a time, and its greedy
  prefix leaves only the last reference of the line, \<open>b2021\<close>, to the group.
\<close>

theorem getCitations_two_references_one_line:
  "getCitations (p\<lparr>library := Some lib\<rparr>) ''[[@a2020]] and [[@b2021]] agree.'' =
     Some [(case map_of (entries lib) ''b2021'' of None \<Rightarrow> Absent | Some e \<Rightarrow> Stored e,
            ''[[@a2020]] and [[@b2021]] agree.'')]"
  by (simp add: getCitations_def matches_two_on_a_line occurrence_def group_def
      property_key_def get_property_b)

text \<open>
  C6 (what the code does at a failing input). The store of the example plugin has no
  entry under \<open>constructor\<close>, yet for the text \<open>[[@constructor]]\<close> the occurrence that
  extraction returns does not have an absent entry: indexing the plain object
  \<open>entries\<close> finds the property of that name which every object inherits.
\<close>

theorem getCitations_inherited_citekey:
  "map_of (entries example_library) ''constructor'' = None
   \<and> library example_plugin = Some example_library
   \<and> getCitations example_plugin ''[[@constructor]]'' =
       Some [(Inherited ''constructor'', ''[[@constructor]]'')]"
  by (simp add: getCitations_def matches_constructor occurrence_def group_def
      property_key_def get_property_def inherited_properties_def example_plugin_def
      example_library_def)

text \<open>
  C7. With no store loaded, extraction returns null for every text, without failing.
  With a store loaded it returns a list, which is empty when the text has no match. The
  two results are different values, so the cases are never conflated.
\<close>

theorem getCitations_no_store_is_distinct:
  "getCitations (p\<lparr>library := None\<rparr>) content = None
   \<and> (citation_matches content' = [] \<longrightarrow>
        getCitations (p'\<lparr>library := Some lib\<rparr>) content' = Some [])
   \<and> getCitations (p\<lparr>library := None\<rparr>) content
        \<noteq> getCitations (p'\<lparr>library := Some lib\<rparr>) content'"
  by (simp add: getCitations_def)

theorem getCitations_no_store_is_distinct_witness:
  "getCitations (example_plugin\<lparr>library := None\<rparr>) ''plain text'' = None
   \<and> citation_matches ''plain text'' = []
   \<and> getCitations (example_plugin\<lparr>library := Some example_library\<rparr>) ''plain text'' = Some []
   \<and> getCitations (example_plugin\<lparr>library := None\<rparr>) ''plain text''
        \<noteq> getCitations (example_plugin\<lparr>library := Some example_library\<rparr>) ''plain text''"
  using getCitations_no_store_is_distinct
    [where content = "''plain text''" and content' = "''plain text''"
       and p = example_plugin and p' = example_plugin and lib = example_library]
  by (simp add: matches_plain)

section \<open>Properties of the templates\<close>

lemma scan_title: "scan_content [] ''{{title}}'' = Some [Content [], Mustache ''title'', Content []]"
  by code_simp

lemma escaping_engine_escapes:
  "map_option (\<lambda>t. render t [(''title'', ''Foo & Bar'')])
     (compileTemplate ''{{title}}'' \<lparr>noEscape = False\<rparr>) = Some ''Foo &amp; Bar''"
  by code_simp

lemma compiled_template_eq:
  "compiled_template kind p = compileTemplate (template_source kind (settings p)) templateSettings"
  by (cases kind)
    (simp_all add: compiled_template_def template_source_def literatureNoteTitleTemplate_def
      literatureNoteContentTemplate_def markdownCitationTemplate_def
      alternativeMarkdownCitationTemplate_def)

lemma render_segment_noEscape: "noEscape opts \<Longrightarrow> render_segment opts vars = verbatim vars"
  by (rule ext) (simp add: render_segment_def verbatim_def split: segment.splits option.splits)

text \<open>
  C8. Each of the four templates of the plugin (title, content, primary and alternative
  citation) is compiled with \<open>noEscape\<close> set, so for every variable map its rendering is
  the text of the template with every value put in as it is: nothing is
  entity-escaped. With the source \<open>{{title}}\<close> and the variable \<open>title\<close> bound to
  \<open>Foo & Bar\<close> the rendering is exactly \<open>Foo & Bar\<close>.
\<close>

theorem templates_render_unescaped:
  "(compiled_template kind p = Some t \<longrightarrow>
      noEscape (options t) \<and> render t vars = concat (map (verbatim vars) (segments t)))
   \<and> (template_source kind (settings p) = ''{{title}}'' \<longrightarrow>
        map_option (\<lambda>t. render t [(''title'', ''Foo & Bar'')]) (compiled_template kind p)
          = Some ''Foo & Bar'')"
proof (intro conjI impI)
  assume c: "compiled_template kind p = Some t"
  then have opts: "options t = templateSettings"
    by (auto simp: compiled_template_eq compileTemplate_def)
  then show "noEscape (options t)" by (simp add: templateSettings_def)
  then show "render t vars = concat (map (verbatim vars) (segments t))"
    by (simp add: render_def render_segment_noEscape)
next
  assume src: "template_source kind (settings p) = ''{{title}}''"
  have "compiled_template kind p
      = Some \<lparr>segments = [Content [], Mustache ''title'', Content []], options = templateSettings\<rparr>"
    unfolding compiled_template_eq compileTemplate_def src scan_title by simp
  then show "map_option (\<lambda>t. render t [(''title'', ''Foo & Bar'')]) (compiled_template kind p)
          = Some ''Foo & Bar''"
    by (simp add: render_def render_segment_def templateSettings_def)
qed

theorem templates_render_unescaped_witness:
  "template_source Title (settings example_plugin) = ''{{title}}''
   \<and> map_option (\<lambda>t. render t [(''title'', ''Foo & Bar'')]) (literatureNoteTitleTemplate example_plugin)
       = Some ''Foo & Bar''"
  using templates_render_unescaped [of Title example_plugin]
  by (simp add: template_source_def compiled_template_def example_plugin_def
      example_settings_def)

section \<open>Properties of the post-processor\<close>











end
